theory Spec2Isabelle
  imports Main "HOL-Library.Multiset"
begin

unbundle bit_operations_syntax

section \<open>Data model of ls.js\<close>

text \<open>
  The parsed option values (\<open>opts\<close>), as \<open>util.parseArgs\<close> hands them to \<open>main\<close> for the
  option table of lines 7-51. The fields \<open>size\<close> of \<open>opts\<close> and of \<open>stats\<close> carry a suffix,
  since \<open>size\<close> is a constant of HOL; so does \<open>help\<close>, a command of Isabelle.
\<close>

record options =
  long :: bool
  all :: bool
  classify :: bool
  color :: string
  size_opt :: bool
  time :: bool
  reverse :: bool
  human_readable :: bool
  help_opt :: bool

text \<open>
  What the program reads of an \<open>fs.Stats\<close> object: the numbers \<open>mode\<close>, \<open>size\<close> and
  \<open>mtime.getTime()\<close>, and the answers of the four type predicates, which the program calls
  as opaque methods of the runtime. A mode is a natural number, of which the masks of the
  source read the low 15 bits. A size is the value of the Number \<open>stats.size\<close>: a natural
  number that is a double, which below \<open>2 ^ 53\<close> is every natural number. Comparing two such
  numbers, and the sign of their difference, are exact.
\<close>

record file_stats =
  mode :: nat
  size_st :: nat
  mtime :: int
  isDirectory :: bool
  isSymbolicLink :: bool
  isSocket :: bool
  isFIFO :: bool

record item =
  name :: string
  stats :: file_stats
  fullPath :: string

text \<open>
  The capabilities of the runtime that the program calls: the two filesystem queries
  (an error is its message), \<open>path.join\<close>, \<open>process.stdout.isTTY\<close> (read for its truth
  value), \<open>String.prototype.localeCompare\<close> and the two locale formatters of \<open>Date\<close>.
\<close>

record env =
  readdir :: "string \<Rightarrow> string + string list"
  stat :: "string \<Rightarrow> string + file_stats"
  join :: "string \<Rightarrow> string \<Rightarrow> string"
  isTTY :: bool
  localeCompare :: "string \<Rightarrow> string \<Rightarrow> int"
  toLocaleDateString :: "int \<Rightarrow> string"
  toLocaleTimeString :: "int \<Rightarrow> string"

text \<open>What a run leaves behind: the lines of both streams and the exit code of the process
  (\<open>0\<close> when \<open>process.exit\<close> is never called).\<close>

record run =
  stdout :: "string list"
  stderr :: "string list"
  exitCode :: nat

section \<open>Strings and arrays of the runtime\<close>

definition startsWith :: "string \<Rightarrow> string \<Rightarrow> bool" where
  "startsWith s p = (take (length p) s = p)"

definition digit :: "nat \<Rightarrow> char" where
  "digit d = ''0123456789'' ! d"

text \<open>The decimal digits of a natural number, most significant first.\<close>

fun decimal :: "nat \<Rightarrow> string" where
  "decimal n = (if n < 10 then [digit n] else decimal (n div 10) @ [digit (n mod 10)])"

declare decimal.simps [simp del]

text \<open>
  A size is a JavaScript Number, a double: a 53-bit mantissa times a power of two. For a
  natural number \<open>v\<close>, \<open>binary_exponent v\<close> is the power of two that brings \<open>v\<close> below \<open>2 ^ 53\<close>,
  and \<open>Number_value v\<close> is the Number value for \<open>v\<close>: the nearest double, a tie going to the
  even mantissa. (Numbers overflow from \<open>2 ^ 1024\<close> on; no size comes near.)
\<close>

function binary_exponent :: "nat \<Rightarrow> nat" where
  "binary_exponent v = (if v < 2 ^ 53 then 0 else Suc (binary_exponent (v div 2)))"
  by pat_completeness auto
termination
  by (relation "measure (\<lambda>v. v)") auto

declare binary_exponent.simps [simp del]

definition Number_value :: "nat \<Rightarrow> nat" where
  "Number_value v =
     (let e = binary_exponent v; q = v div 2 ^ e; r = v mod 2 ^ e
      in if 2 * r < 2 ^ e then q * 2 ^ e
         else if 2 ^ e < 2 * r then (q + 1) * 2 ^ e
         else if even q then q * 2 ^ e
         else (q + 1) * 2 ^ e)"

text \<open>
  \<open>Number.prototype.toString\<close> on a Number whose value is the natural number \<open>x\<close>
  (ECMAScript, Number::toString with radix 10): the digits are those of the integer \<open>s\<close>
  with the fewest digits such that \<open>s\<close> followed by some number \<open>z\<close> of zeros reads back
  as \<open>x\<close>, that is, \<open>Number_value (s * 10 ^ z) = x\<close>. \<open>shortest_digits x z\<close> tries the numbers
  of trailing zeros from \<open>z\<close> down; with that many zeros only the two multiples of
  \<open>10 ^ z\<close> around \<open>x\<close> can read back as \<open>x\<close>, and of two that do the nearer one is taken
  (the even one when they are equally near).
  With \<open>n\<close> the number of digits and zeros together, the result is the digits and the zeros
  when \<open>n \<le> 21\<close>, and the exponent form otherwise.
\<close>

fun shortest_digits :: "nat \<Rightarrow> nat \<Rightarrow> nat \<times> nat" where
  "shortest_digits x 0 = (x, 0)"
| "shortest_digits x (Suc z) =
     (let u = 10 ^ Suc z; lo = x div u; hi = lo + 1;
          lo_ok = (lo \<noteq> 0 \<and> Number_value (lo * u) = x);
          hi_ok = (Number_value (hi * u) = x);
          lo_near = (x - lo * u < hi * u - x \<or> (x - lo * u = hi * u - x \<and> even lo))
      in if lo_ok \<and> (\<not> hi_ok \<or> lo_near) then (lo, Suc z)
         else if hi_ok then (hi, Suc z)
         else shortest_digits x z)"

definition toString :: "nat \<Rightarrow> string" where
  "toString x =
     (if x = 0 then ''0''
      else
        (let (s, z) = shortest_digits x (length (decimal x));
             n = length (decimal s) + z
         in if n \<le> 21 then decimal s @ replicate z CHR ''0''
            else (case decimal s of
                    [] \<Rightarrow> []
                  | d # ds \<Rightarrow>
                      (if ds = [] then [d] else d # ''.'' @ ds) @ ''e+'' @ decimal (n - 1))))"

text \<open>
  \<open>Math.round(n / d)\<close> for a size \<open>n\<close> and a divisor \<open>d\<close>: the nearest integer, a half rounding
  up. The divisors of the source are powers of two, so the quotient of the two Numbers is
  exact.
\<close>

definition Math_round_div :: "nat \<Rightarrow> nat \<Rightarrow> nat" where
  "Math_round_div n d = (2 * n + d) div (2 * d)"

definition padStart :: "string \<Rightarrow> nat \<Rightarrow> string" where
  "padStart s w = replicate (w - length s) CHR '' '' @ s"

fun join_with :: "string \<Rightarrow> string list \<Rightarrow> string" where
  "join_with sep [] = []"
| "join_with sep [x] = x"
| "join_with sep (x # y # ys) = x @ sep @ join_with sep (y # ys)"

text \<open>
  \<open>Array.prototype.sort\<close> with a comparison function: a stable sort, so an element goes
  before the elements it does not compare greater than. Each element is put in its place
  among the sorted elements that followed it.
\<close>

fun sort_insert :: "('a \<Rightarrow> 'a \<Rightarrow> int) \<Rightarrow> 'a \<Rightarrow> 'a list \<Rightarrow> 'a list" where
  "sort_insert cmp a [] = [a]"
| "sort_insert cmp a (b # bs) =
     (if cmp a b \<le> 0 then a # b # bs else b # sort_insert cmp a bs)"

definition array_sort :: "('a \<Rightarrow> 'a \<Rightarrow> int) \<Rightarrow> 'a list \<Rightarrow> 'a list" where
  "array_sort cmp xs = foldr (sort_insert cmp) xs []"

section \<open>Formatting (lines 83-128)\<close>

definition perms :: "string list" where
  "perms = [''---'', ''--x'', ''-w-'', ''-wx'', ''r--'', ''r-x'', ''rw-'', ''rwx'']"

text \<open>An index outside the array reads \<open>undefined\<close>, which \<open>join\<close> renders as nothing.\<close>

definition perms_at :: "nat \<Rightarrow> string" where
  "perms_at i = (if i < length perms then perms ! i else [])"

text \<open>The masks are \<open>0o40000 = 16384\<close>, \<open>0o700 = 448\<close>, \<open>0o070 = 56\<close> and \<open>0o007 = 7\<close>.\<close>

definition formatPermissions :: "nat \<Rightarrow> string" where
  "formatPermissions m =
     concat [(if m AND 16384 \<noteq> 0 then ''d'' else ''-''),
             perms_at (drop_bit 6 (m AND 448)),
             perms_at (drop_bit 3 (m AND 56)),
             perms_at (m AND 7)]"

definition formatSize :: "nat \<Rightarrow> bool \<Rightarrow> string" where
  "formatSize sz humanReadable =
     (if \<not> humanReadable then toString sz
      else if sz < 1024 then toString sz
      else if sz < 1024 * 1024 then toString (Math_round_div sz 1024) @ ''K''
      else if sz < 1024 * 1024 * 1024 then toString (Math_round_div sz (1024 * 1024)) @ ''M''
      else if sz < 1024 * 1024 * 1024 * 1024
        then toString (Math_round_div sz (1024 * 1024 * 1024)) @ ''G''
      else toString (Math_round_div sz (1024 * 1024 * 1024 * 1024)) @ ''T'')"

definition formatDate :: "env \<Rightarrow> int \<Rightarrow> string" where
  "formatDate E date = toLocaleDateString E date @ '' '' @ toLocaleTimeString E date"

section \<open>Sorting (lines 105-121)\<close>

definition sortItems :: "env \<Rightarrow> item list \<Rightarrow> options \<Rightarrow> item list" where
  "sortItems E items opts =
     (let sortedItems =
        (if size_opt opts
           then array_sort (\<lambda>a b. int (size_st (stats b)) - int (size_st (stats a))) items
         else if time opts
           then array_sort (\<lambda>a b. mtime (stats b) - mtime (stats a)) items
         else array_sort (\<lambda>a b. localeCompare E (name a) (name b)) items)
      in if reverse opts then rev sortedItems else sortedItems)"

section \<open>Classification and colour (lines 130-162)\<close>

definition ESC :: char where
  "ESC = CHR 0x1B"

definition colors_reset :: string where "colors_reset = ESC # ''[0m''"
definition colors_directory :: string where "colors_directory = ESC # ''[34m''"
definition colors_executable :: string where "colors_executable = ESC # ''[32m''"
definition colors_symlink :: string where "colors_symlink = ESC # ''[36m''"
definition colors_socket :: string where "colors_socket = ESC # ''[35m''"
definition colors_fifo :: string where "colors_fifo = ESC # ''[33m''"
definition colors_regular :: string where "colors_regular = ESC # ''[0m''"

text \<open>The execute mask is \<open>0o111 = 73\<close>.\<close>

definition getFileTypeIndicator :: "file_stats \<Rightarrow> string" where
  "getFileTypeIndicator st =
     (if isDirectory st then ''/''
      else if isSymbolicLink st then ''@''
      else if isSocket st then ''=''
      else if isFIFO st then ''|''
      else if mode st AND 73 \<noteq> 0 then ''*''
      else '''')"

definition getFileColor :: "file_stats \<Rightarrow> string" where
  "getFileColor st =
     (if isDirectory st then colors_directory
      else if isSymbolicLink st then colors_symlink
      else if isSocket st then colors_socket
      else if isFIFO st then colors_fifo
      else if mode st AND 73 \<noteq> 0 then colors_executable
      else colors_regular)"

definition shouldUseColor :: "env \<Rightarrow> string \<Rightarrow> bool" where
  "shouldUseColor E colorOption =
     (if colorOption = ''always'' then True
      else if colorOption = ''never'' then False
      else isTTY E)"

section \<open>Listing a directory (lines 171-227)\<close>

definition access_message :: "string \<Rightarrow> string \<Rightarrow> string" where
  "access_message what msg =
     ''ls: cannot access '' @ [CHR 0x27] @ what @ [CHR 0x27] @ '': '' @ msg"

text \<open>
  The loop of lines 176-192, over the members still to visit, with the array \<open>items\<close> and
  the lines written to the error stream so far.
\<close>

fun collect :: "env \<Rightarrow> options \<Rightarrow> string \<Rightarrow> string list \<Rightarrow> item list \<times> string list
    \<Rightarrow> item list \<times> string list" where
  "collect E opts directory [] acc = acc"
| "collect E opts directory (entry # entries) (items, errs) =
     (if \<not> all opts \<and> startsWith entry ''.''
        then collect E opts directory entries (items, errs)
      else
        (case stat E (join E directory entry) of
           Inl msg \<Rightarrow>
             collect E opts directory entries (items, errs @ [access_message entry msg])
         | Inr st \<Rightarrow>
             collect E opts directory entries
               (items @ [\<lparr>name = entry, stats = st, fullPath = join E directory entry\<rparr>], errs)))"

definition longLine :: "env \<Rightarrow> options \<Rightarrow> bool \<Rightarrow> item \<Rightarrow> string" where
  "longLine E opts useColor it =
     (let perms = formatPermissions (mode (stats it));
          sz = formatSize (size_st (stats it)) (human_readable opts);
          date = formatDate E (mtime (stats it));
          indicator = (if classify opts then getFileTypeIndicator (stats it) else '''')
      in if useColor
           then perms @ '' '' @ padStart sz 8 @ '' '' @ date @ '' '' @
                  getFileColor (stats it) @ name it @ indicator @ colors_reset
         else perms @ '' '' @ padStart sz 8 @ '' '' @ date @ '' '' @ name it @ indicator)"

definition shortName :: "options \<Rightarrow> bool \<Rightarrow> item \<Rightarrow> string" where
  "shortName opts useColor it =
     (let indicator = (if classify opts then getFileTypeIndicator (stats it) else '''')
      in if useColor then getFileColor (stats it) @ name it @ indicator @ colors_reset
         else name it @ indicator)"

definition listDirectory :: "env \<Rightarrow> string \<Rightarrow> options \<Rightarrow> run" where
  "listDirectory E directory opts =
     (case readdir E directory of
        Inl msg \<Rightarrow>
          \<lparr>stdout = [], stderr = [access_message directory msg], exitCode = 1\<rparr>
      | Inr entries \<Rightarrow>
          (let (items, errs) = collect E opts directory entries ([], []);
               sortedItems = sortItems E items opts;
               useColor = shouldUseColor E (color opts)
           in \<lparr>stdout =
                 (if long opts then map (longLine E opts useColor) sortedItems
                  else [join_with ''  '' (map (shortName opts useColor) sortedItems)]),
               stderr = errs, exitCode = 0\<rparr>))"

text \<open>The array \<open>items\<close> at the end of the loop, for the members \<open>entries\<close> of the directory.\<close>

definition collected :: "env \<Rightarrow> options \<Rightarrow> string \<Rightarrow> string list \<Rightarrow> item list" where
  "collected E opts directory entries = fst (collect E opts directory entries ([], []))"

section \<open>The default override of main (lines 245-253)\<close>

definition userSpecifiedOptions :: "string list \<Rightarrow> bool" where
  "userSpecifiedOptions argv = list_ex (\<lambda>arg. startsWith arg ''-'') argv"

definition onlyLongOption :: "string list \<Rightarrow> bool" where
  "onlyLongOption argv = (length argv = 1 \<and> argv ! 0 = ''-l'')"

definition overrideDefaults :: "string list \<Rightarrow> options \<Rightarrow> options" where
  "overrideDefaults argv opts =
     (if \<not> userSpecifiedOptions argv \<or> onlyLongOption argv
        then (let opts1 = opts\<lparr>classify := True\<rparr>
              in if color opts1 = ''auto'' then opts1\<lparr>color := ''always''\<rparr> else opts1)
      else opts)"

section \<open>Notions of the specification\<close>

text \<open>The mapping of a 3-bit value to its permission group, as the specification lists it.\<close>

definition spec_mapping :: "nat \<rightharpoonup> string" where
  "spec_mapping = map_of
     [(0, ''---''), (1, ''--x''), (2, ''-w-''), (3, ''-wx''),
      (4, ''r--''), (5, ''r-x''), (6, ''rw-''), (7, ''rwx'')]"

text \<open>The pattern \<open>^[d-][r-][w-][x-][r-][w-][x-][r-][w-][x-]$\<close>: one character class for
  each of the ten positions.\<close>

definition matches_permission_pattern :: "string \<Rightarrow> bool" where
  "matches_permission_pattern s =
     list_all2 (\<lambda>c cls. c \<in> set cls) s
       [''d-'', ''r-'', ''w-'', ''x-'', ''r-'', ''w-'', ''x-'', ''r-'', ''w-'', ''x-'']"

text \<open>
  The number a string denotes as a decimal integer: digits only, at least one, and no
  leading zero except for the string \<open>0\<close> itself. Each number has one such string.
\<close>

definition is_digit :: "char \<Rightarrow> bool" where
  "is_digit c = (48 \<le> (of_char c :: nat) \<and> (of_char c :: nat) \<le> 57)"

definition decimal_value :: "string \<Rightarrow> nat option" where
  "decimal_value s =
     (if s = [] \<or> \<not> list_all is_digit s \<or> (1 < length s \<and> hd s = CHR ''0'') then None
      else Some (foldl (\<lambda>acc c. 10 * acc + (of_char c - 48)) 0 s))"

text \<open>
  The file-type field of a mode, as POSIX and the runtime's \<open>Stats.isDirectory\<close> read it:
  the mask \<open>S_IFMT = 0o170000 = 61440\<close>, a directory \<open>S_IFDIR = 0o040000 = 16384\<close>,
  a socket \<open>S_IFSOCK = 0o140000 = 49152\<close>.
\<close>

definition S_ISDIR :: "nat \<Rightarrow> bool" where
  "S_ISDIR m = (m AND 61440 = 16384)"

definition S_ISSOCK :: "nat \<Rightarrow> bool" where
  "S_ISSOCK m = (m AND 61440 = 49152)"

section \<open>A concrete directory\<close>

text \<open>
  A directory \<open>/tmp\<close> with four members: a regular file \<open>a.txt\<close>, a hidden file, a member
  \<open>gone\<close> whose metadata query fails, and a regular file \<open>run.exe\<close> of mode \<open>0o100644\<close>
  (\<open>33188\<close>, no execute bit). Names compare by their character codes.
\<close>

fun code_compare :: "string \<Rightarrow> string \<Rightarrow> int" where
  "code_compare [] [] = 0"
| "code_compare [] (y # ys) = - 1"
| "code_compare (x # xs) [] = 1"
| "code_compare (x # xs) (y # ys) =
     (if (of_char x :: nat) < of_char y then - 1
      else if (of_char y :: nat) < of_char x then 1
      else code_compare xs ys)"

definition regular_file :: "nat \<Rightarrow> nat \<Rightarrow> file_stats" where
  "regular_file m sz =
     \<lparr>mode = m, size_st = sz, mtime = 0, isDirectory = False, isSymbolicLink = False,
      isSocket = False, isFIFO = False\<rparr>"

definition demo_env :: env where
  "demo_env =
     \<lparr>readdir = (\<lambda>d. if d = ''/tmp'' then Inr [''a.txt'', ''.hidden'', ''gone'', ''run.exe'']
                     else Inl ''ENOENT: no such file or directory''),
      stat = (\<lambda>p. if p = ''/tmp/a.txt'' then Inr (regular_file 33188 500)
                  else if p = ''/tmp/.hidden'' then Inr (regular_file 33188 10)
                  else if p = ''/tmp/run.exe'' then Inr (regular_file 33188 2000000)
                  else Inl ''ENOENT: no such file or directory''),
      join = (\<lambda>d e. d @ ''/'' @ e),
      isTTY = False,
      localeCompare = code_compare,
      toLocaleDateString = (\<lambda>t. ''1/1/1970''),
      toLocaleTimeString = (\<lambda>t. ''12:00 AM'')\<rparr>"

definition demo_opts :: options where
  "demo_opts =
     \<lparr>long = False, all = False, classify = True, color = ''always'', size_opt = False,
      time = False, reverse = False, human_readable = False, help_opt = False\<rparr>"

text \<open>What \<open>util.parseArgs\<close> returns for the arguments \<open>--long\<close> alone: \<open>long\<close> is set, every
  other option has its default.\<close>

definition parsed_long :: options where
  "parsed_long =
     \<lparr>long = True, all = False, classify = False, color = ''auto'', size_opt = False,
      time = False, reverse = False, human_readable = False, help_opt = False\<rparr>"

section \<open>The permission string\<close>

lemma and7: "(m::nat) AND 7 = m mod 8"
proof -
  have "m AND 7 = take_bit 3 m" by (simp add: take_bit_eq_mask mask_eq_exp_minus_1)
  then show ?thesis by (simp add: take_bit_eq_mod)
qed

lemma and56: "drop_bit 3 ((m::nat) AND 56) = (m div 8) mod 8"
proof -
  have "drop_bit 3 (m AND 56) = drop_bit 3 m AND drop_bit 3 56" by (simp add: drop_bit_and)
  also have "drop_bit 3 (56::nat) = 7" by (simp add: drop_bit_eq_div)
  finally show ?thesis by (simp add: and7 drop_bit_eq_div)
qed

lemma and448: "drop_bit 6 ((m::nat) AND 448) = (m div 64) mod 8"
proof -
  have "drop_bit 6 (m AND 448) = drop_bit 6 m AND drop_bit 6 448" by (simp add: drop_bit_and)
  also have "drop_bit 6 (448::nat) = 7" by (simp add: drop_bit_eq_div)
  finally show ?thesis by (simp add: and7 drop_bit_eq_div)
qed

lemma below8: "(v::nat) < 8 \<Longrightarrow> v = 0 \<or> v = 1 \<or> v = 2 \<or> v = 3 \<or> v = 4 \<or> v = 5 \<or> v = 6 \<or> v = 7"
  by arith

lemma perms_at_group:
  assumes "v < 8"
  shows "spec_mapping v = Some (perms_at v)"
    and "length (perms_at v) = 3"
    and "list_all2 (\<lambda>c cls. c \<in> set cls) (perms_at v) [''r-'', ''w-'', ''x-'']"
  using below8 [OF assms]
  by (auto simp: perms_at_def perms_def spec_mapping_def)

text \<open>
  Claim C7. For every mode, the string of \<open>formatPermissions\<close> has exactly 10 characters
  and matches \<open>^[d-][r-][w-][x-][r-][w-][x-][r-][w-][x-]$\<close>; its first character is the
  directory-flag character, and the three groups of 3 characters after it are what the
  mapping of the specification gives for the 3-bit values of owner, group and other.
\<close>

theorem formatPermissions_shape:
  "length (formatPermissions m) = 10
   \<and> matches_permission_pattern (formatPermissions m)
   \<and> hd (formatPermissions m) = (if m AND 16384 \<noteq> 0 then CHR ''d'' else CHR ''-'')
   \<and> spec_mapping (m div 64 mod 8) = Some (take 3 (drop 1 (formatPermissions m)))
   \<and> spec_mapping (m div 8 mod 8) = Some (take 3 (drop 4 (formatPermissions m)))
   \<and> spec_mapping (m mod 8) = Some (drop 7 (formatPermissions m))"
proof -
  define u where "u = perms_at (m div 64 mod 8)"
  define g where "g = perms_at (m div 8 mod 8)"
  define oth where "oth = perms_at (m mod 8)"
  define d where "d = (if m AND 16384 \<noteq> 0 then CHR ''d'' else CHR ''-'')"
  have shape: "formatPermissions m = d # u @ g @ oth"
    unfolding formatPermissions_def and448 and56 and7 u_def g_def oth_def d_def by simp
  have lu: "length u = 3" and lg: "length g = 3" and lo: "length oth = 3"
    by (simp_all add: u_def g_def oth_def perms_at_group(2))
  have mu: "spec_mapping (m div 64 mod 8) = Some u"
    and mg: "spec_mapping (m div 8 mod 8) = Some g"
    and mo: "spec_mapping (m mod 8) = Some oth"
    by (simp_all add: u_def g_def oth_def perms_at_group(1))
  have pu: "list_all2 (\<lambda>c cls. c \<in> set cls) u [''r-'', ''w-'', ''x-'']"
    and pg: "list_all2 (\<lambda>c cls. c \<in> set cls) g [''r-'', ''w-'', ''x-'']"
    and po: "list_all2 (\<lambda>c cls. c \<in> set cls) oth [''r-'', ''w-'', ''x-'']"
    by (simp_all add: u_def g_def oth_def perms_at_group(3))
  have pd: "list_all2 (\<lambda>c cls. c \<in> set cls) [d] [''d-'']"
    by (simp add: d_def)
  have "list_all2 (\<lambda>c cls. c \<in> set cls) ([d] @ u @ g @ oth)
          ([''d-''] @ [''r-'', ''w-'', ''x-''] @ [''r-'', ''w-'', ''x-''] @ [''r-'', ''w-'', ''x-''])"
    by (intro list_all2_appendI pd pu pg po)
  then have pat: "matches_permission_pattern (formatPermissions m)"
    by (simp add: matches_permission_pattern_def shape)
  show ?thesis
    using pat by (simp add: shape lu lg lo mu mg mo d_def)
qed

lemma and16384: "((m::nat) AND 16384 \<noteq> 0) = bit m 14"
proof -
  have "(16384::nat) = push_bit 14 1" by simp
  then show ?thesis by (simp only: bit_iff_and_push_bit_not_eq_0)
qed

lemma socket_bit14: "(m::nat) AND 61440 = 49152 \<Longrightarrow> bit m 14"
proof -
  assume h: "m AND 61440 = 49152"
  have "bit (m AND 61440) 14 = bit (49152::nat) 14" using h by simp
  moreover have "bit (49152::nat) 14" by (simp add: bit_iff_odd)
  ultimately show ?thesis by (simp add: bit_and_iff)
qed

lemma hd_formatPermissions:
  "hd (formatPermissions m) = (if m AND 16384 \<noteq> 0 then CHR ''d'' else CHR ''-'')"
  by (simp add: formatPermissions_def)

text \<open>
  Claim C9. The first character of \<open>formatPermissions m\<close> is \<open>d\<close> exactly when bit
  \<open>0o40000\<close> (bit 14) of the mode is set; so a mode whose file-type field is the socket
  type \<open>0o140000\<close> gets a \<open>d\<close>, although its file-type field is not that of a directory.
\<close>

theorem formatPermissions_first_char:
  "(hd (formatPermissions m) = CHR ''d'') = bit m 14
   \<and> (S_ISSOCK m \<longrightarrow> hd (formatPermissions m) = CHR ''d'' \<and> \<not> S_ISDIR m)"
proof -
  have a: "(hd (formatPermissions m) = CHR ''d'') = bit m 14"
    by (simp add: hd_formatPermissions flip: and16384)
  have b: "S_ISSOCK m \<Longrightarrow> bit m 14"
    by (simp add: S_ISSOCK_def socket_bit14)
  have c: "S_ISSOCK m \<Longrightarrow> \<not> S_ISDIR m"
    by (simp add: S_ISSOCK_def S_ISDIR_def)
  from a b c show ?thesis by blast
qed

theorem formatPermissions_first_char_witness:
  "S_ISSOCK 49645 \<and> hd (formatPermissions 49645) = CHR ''d'' \<and> \<not> S_ISDIR 49645"
proof -
  have h: "S_ISSOCK 49645" by (simp add: S_ISSOCK_def)
  with formatPermissions_first_char [of 49645] show ?thesis by blast
qed

section \<open>Sizes\<close>

lemma below10: "(d::nat) < 10 \<Longrightarrow>
    d = 0 \<or> d = 1 \<or> d = 2 \<or> d = 3 \<or> d = 4 \<or> d = 5 \<or> d = 6 \<or> d = 7 \<or> d = 8 \<or> d = 9"
  by arith

lemma of_char_digit: "d < 10 \<Longrightarrow> (of_char (digit d) :: nat) = 48 + d"
  using below10 [of d] by (auto simp: digit_def)

lemma is_digit_digit: "d < 10 \<Longrightarrow> is_digit (digit d)"
  by (simp add: is_digit_def of_char_digit)

lemma digit_zero: "d < 10 \<Longrightarrow> (digit d = CHR ''0'') = (d = 0)"
  using below10 [of d] by (auto simp: digit_def)

subsection \<open>The decimal digits read back as the number\<close>

lemma decimal_small: "n < 10 \<Longrightarrow> decimal n = [digit n]"
  by (subst decimal.simps) simp

lemma decimal_step: "10 \<le> n \<Longrightarrow> decimal n = decimal (n div 10) @ [digit (n mod 10)]"
  by (subst decimal.simps) simp

lemma decimal_nonempty: "decimal n \<noteq> []"
  by (subst decimal.simps) simp

lemma decimal_digits: "list_all is_digit (decimal n)"
proof (induction n rule: decimal.induct)
  case (1 n)
  show ?case
  proof (cases "n < 10")
    case True
    then show ?thesis by (subst decimal.simps) (simp add: is_digit_digit)
  next
    case False
    with 1 show ?thesis by (subst decimal.simps) (simp add: is_digit_digit)
  qed
qed

lemma decimal_hd: "(hd (decimal n) = CHR ''0'') = (n = 0)"
proof (induction n rule: decimal.induct)
  case (1 n)
  show ?case
  proof (cases "n < 10")
    case True
    then show ?thesis by (subst decimal.simps) (simp add: digit_zero)
  next
    case False
    then have "n div 10 \<noteq> 0" by simp
    with 1 False show ?thesis
      by (subst decimal.simps) (simp add: decimal_nonempty)
  qed
qed

lemma decimal_length: "(1 < length (decimal n)) = (10 \<le> n)"
proof (cases "n < 10")
  case True
  then show ?thesis by (subst decimal.simps) simp
next
  case False
  have "0 < length (decimal (n div 10))" using decimal_nonempty by blast
  with False show ?thesis by (subst decimal.simps) simp
qed

lemma decimal_foldl: "foldl (\<lambda>acc c. 10 * acc + (of_char c - 48)) 0 (decimal n) = n"
proof (induction n rule: decimal.induct)
  case (1 n)
  show ?case
  proof (cases "n < 10")
    case True
    then show ?thesis by (subst decimal.simps) (simp add: of_char_digit)
  next
    case False
    with 1 show ?thesis by (subst decimal.simps) (simp add: of_char_digit)
  qed
qed

lemma decimal_value_decimal: "decimal_value (decimal n) = Some n"
proof -
  have "\<not> (1 < length (decimal n) \<and> hd (decimal n) = CHR ''0'')"
    by (simp only: decimal_length decimal_hd) simp
  then show ?thesis
    unfolding decimal_value_def
    by (simp only: decimal_nonempty decimal_digits decimal_foldl) simp
qed

lemma decimal_times_10: "0 < s \<Longrightarrow> decimal (s * 10) = decimal s @ ''0''"
  by (subst decimal.simps) (simp add: digit_def)

lemma decimal_shift: "0 < s \<Longrightarrow> decimal (s * 10 ^ z) = decimal s @ replicate z CHR ''0''"
proof (induction z)
  case 0
  show ?case by simp
next
  case (Suc z)
  have eq: "s * 10 ^ Suc z = s * 10 ^ z * 10" by simp
  have "decimal (s * 10 ^ Suc z) = decimal (s * 10 ^ z * 10)" by (simp only: eq)
  also have "\<dots> = decimal (s * 10 ^ z) @ ''0''"
    using Suc.prems by (intro decimal_times_10) simp
  also have "\<dots> = decimal s @ replicate (Suc z) CHR ''0''"
    using Suc by (simp add: replicate_append_same)
  finally show ?case .
qed

lemma length_decimal: "x < 10 ^ Suc m \<Longrightarrow> length (decimal x) \<le> Suc m"
proof (induction m arbitrary: x)
  case 0
  then show ?case by (simp add: decimal_small)
next
  case (Suc m)
  show ?case
  proof (cases "x < 10")
    case True
    then show ?thesis by (simp add: decimal_small)
  next
    case False
    from Suc.prems have "x div 10 < 10 ^ Suc m"
      by (simp add: less_mult_imp_div_less mult.commute)
    from Suc.IH [OF this] False show ?thesis by (simp add: decimal_step)
  qed
qed

subsection \<open>Numbers below \<open>2 ^ 53\<close> print their exact digits\<close>

lemma binary_exponent_small: "v < 2 ^ 53 \<Longrightarrow> binary_exponent v = 0"
  by (subst binary_exponent.simps) simp

lemma binary_exponent_large:
  "2 ^ 53 \<le> v \<Longrightarrow> binary_exponent v = Suc (binary_exponent (v div 2))"
  by (subst binary_exponent.simps) simp

lemma shortest_digits_step:
  "shortest_digits x (Suc z) =
     (if (x div 10 ^ Suc z \<noteq> 0 \<and> Number_value (x div 10 ^ Suc z * 10 ^ Suc z) = x)
          \<and> (Number_value ((x div 10 ^ Suc z + 1) * 10 ^ Suc z) \<noteq> x
               \<or> x - x div 10 ^ Suc z * 10 ^ Suc z < (x div 10 ^ Suc z + 1) * 10 ^ Suc z - x
               \<or> (x - x div 10 ^ Suc z * 10 ^ Suc z = (x div 10 ^ Suc z + 1) * 10 ^ Suc z - x
                   \<and> even (x div 10 ^ Suc z)))
        then (x div 10 ^ Suc z, Suc z)
      else if Number_value ((x div 10 ^ Suc z + 1) * 10 ^ Suc z) = x
        then (x div 10 ^ Suc z + 1, Suc z)
      else shortest_digits x z)"
  by (simp add: Let_def)

lemma Number_value_small: "v < 2 ^ 53 \<Longrightarrow> Number_value v = v"
  by (simp add: Number_value_def binary_exponent_small)

lemma binary_exponent_mantissa:
  "2 ^ 53 \<le> v \<Longrightarrow> 0 < binary_exponent v \<and> 2 ^ 52 \<le> v div 2 ^ binary_exponent v"
proof (induction v rule: binary_exponent.induct)
  case (1 v)
  have unfold: "binary_exponent v = Suc (binary_exponent (v div 2))"
    using "1.prems" by (rule binary_exponent_large)
  show ?case
  proof (cases "v div 2 < 2 ^ 53")
    case True
    then have "binary_exponent (v div 2) = 0" by (rule binary_exponent_small)
    moreover have "(2::nat) ^ 52 \<le> v div 2" using "1.prems" by simp
    ultimately show ?thesis by (simp add: unfold)
  next
    case False
    then have big: "2 ^ 53 \<le> v div 2" by simp
    have "\<not> v < 2 ^ 53" using "1.prems" by simp
    from "1.IH" [OF this big]
    have "2 ^ 52 \<le> v div 2 div 2 ^ binary_exponent (v div 2)" by simp
    then show ?thesis by (simp add: unfold div_mult2_eq)
  qed
qed

lemma Number_value_large:
  assumes "2 ^ 53 \<le> v"
  shows "2 ^ 53 \<le> Number_value v"
proof -
  define e where "e = binary_exponent v"
  define q where "q = v div 2 ^ e"
  from binary_exponent_mantissa [OF assms] have e: "0 < e" and q: "2 ^ 52 \<le> q"
    by (simp_all add: e_def q_def)
  from e obtain e' where e': "e = Suc e'" by (cases e) auto
  have "(2::nat) ^ 53 = 2 ^ 52 * 2" by simp
  also have "\<dots> \<le> q * 2 ^ e"
    using q by (intro mult_le_mono) (simp_all add: e')
  finally have base: "2 ^ 53 \<le> q * 2 ^ e" .
  then have up: "2 ^ 53 \<le> (q + 1) * 2 ^ e" by (simp add: algebra_simps)
  show ?thesis
    using base up by (simp add: Number_value_def Let_def e_def [symmetric] q_def [symmetric])
qed

lemma Number_value_eq_small:
  assumes "x < 2 ^ 53"
  shows "(Number_value v = x) = (v = x)"
proof (cases "v < 2 ^ 53")
  case True
  then show ?thesis by (simp add: Number_value_small)
next
  case False
  then have "2 ^ 53 \<le> Number_value v" by (intro Number_value_large) simp
  with assms False show ?thesis by auto
qed

lemma div_plus_one_times: "0 < (u::nat) \<Longrightarrow> x < (x div u + 1) * u"
  using dividend_less_div_times [of u x] by (simp add: algebra_simps)

lemma shortest_digits_small:
  assumes "x < 2 ^ 53"
  shows "fst (shortest_digits x z) * 10 ^ snd (shortest_digits x z) = x"
proof (induction z)
  case 0
  show ?case by simp
next
  case (Suc z)
  have above: "(x div 10 ^ Suc z + 1) * 10 ^ Suc z \<noteq> x"
    using div_plus_one_times [of "10 ^ Suc z" x] by simp
  show ?case
    unfolding shortest_digits_step Number_value_eq_small [OF assms]
    using above Suc.IH by (simp del: power_Suc)
qed

lemma toString_exact:
  assumes "x < 2 ^ 53"
  shows "toString x = decimal x"
proof (cases "x = 0")
  case True
  then show ?thesis by (simp add: toString_def decimal_small digit_def)
next
  case False
  obtain s z where sz: "shortest_digits x (length (decimal x)) = (s, z)"
    by (cases "shortest_digits x (length (decimal x))")
  from shortest_digits_small [OF assms, of "length (decimal x)"] sz
  have prod: "s * 10 ^ z = x" by simp
  with False have pos: "0 < s" by (cases s) auto
  from decimal_shift [OF pos, of z] prod
  have digits: "decimal s @ replicate z CHR ''0'' = decimal x" by simp
  have "x < 10 ^ Suc 15" using assms by simp
  then have "length (decimal x) \<le> Suc 15" by (rule length_decimal)
  moreover have "length (decimal s) + z = length (decimal x)"
    using digits [symmetric] by simp
  ultimately have "length (decimal s) + z \<le> 21" by simp
  with False sz digits show ?thesis by (simp add: toString_def)
qed

subsection \<open>Two Numbers from \<open>2 ^ 53\<close> on\<close>

text \<open>
  \<open>2 ^ 60 = 1152921504606846976\<close> and \<open>2 ^ 63 = 9223372036854775808\<close> are doubles. Sixteen
  digits and three zeros already read back as each of them, so these are what is printed.
\<close>

lemmas toString_eval =
  toString_def Number_value_def binary_exponent_small binary_exponent_large Let_def
  decimal_small decimal_step digit_def shortest_digits_step

lemma toString_2_60: "toString 1152921504606846976 = ''1152921504606847000''"
  by (simp add: toString_eval del: shortest_digits.simps(2))

lemma toString_2_63: "toString 9223372036854775808 = ''9223372036854776000''"
  by (simp add: toString_eval del: shortest_digits.simps(2))

lemma decimal_1152921504606847000: "decimal 1152921504606847000 = ''1152921504606847000''"
  by (simp add: decimal_small decimal_step digit_def)

lemma decimal_9223372036854776000: "decimal 9223372036854776000 = ''9223372036854776000''"
  by (simp add: decimal_small decimal_step digit_def)

text \<open>
  Claim C4, as the code has it. In human-readable mode \<open>formatSize\<close> gives \<open>0\<close> for 0,
  \<open>1023\<close> for 1023, \<open>1K\<close> for 1024 and \<open>1M\<close> for 1048576; in the other mode it gives, for
  every size below \<open>2 ^ 53\<close>, the decimal integer string of the byte count: the digits of
  the size, which read back as the size.
\<close>

theorem formatSize_values:
  "formatSize 0 True = ''0''
   \<and> formatSize 1023 True = ''1023''
   \<and> formatSize 1024 True = ''1K''
   \<and> formatSize 1048576 True = ''1M''
   \<and> (sz < 2 ^ 53 \<longrightarrow>
        formatSize sz False = decimal sz \<and> decimal_value (formatSize sz False) = Some sz)"
proof -
  have a: "formatSize 0 True = ''0''"
    by (simp add: formatSize_def toString_exact decimal_small digit_def)
  have b: "formatSize 1023 True = ''1023''"
    by (simp add: formatSize_def toString_exact decimal_small decimal_step digit_def)
  have c: "formatSize 1024 True = ''1K''"
    by (simp add: formatSize_def Math_round_div_def toString_exact decimal_small digit_def)
  have d: "formatSize 1048576 True = ''1M''"
    by (simp add: formatSize_def Math_round_div_def toString_exact decimal_small digit_def)
  have e: "sz < 2 ^ 53 \<longrightarrow>
        formatSize sz False = decimal sz \<and> decimal_value (formatSize sz False) = Some sz"
    by (simp add: formatSize_def toString_exact decimal_value_decimal)
  from a b c d e show ?thesis by blast
qed

theorem formatSize_values_witness:
  "(2000000::nat) < 2 ^ 53 \<and> formatSize 2000000 False = ''2000000''
   \<and> decimal_value ''2000000'' = Some 2000000"
proof -
  have h: "(2000000::nat) < 2 ^ 53" by simp
  have d: "decimal 2000000 = ''2000000''"
    by (simp add: decimal_small decimal_step digit_def)
  from h formatSize_values [of 2000000]
  have k: "formatSize 2000000 False = decimal 2000000"
    and v: "decimal_value (formatSize 2000000 False) = Some 2000000"
    by blast+
  have e: "formatSize 2000000 False = ''2000000''" by (simp only: k d)
  have r: "decimal_value ''2000000'' = Some 2000000" using v by (simp only: e)
  from h e r show ?thesis by blast
qed

text \<open>
  From \<open>2 ^ 53\<close> on the digits are no longer those of the byte count. A file of \<open>2 ^ 60\<close>
  bytes prints as \<open>1152921504606847000\<close>, which reads as another number; so does the Number
  \<open>2 ^ 63\<close>.
\<close>

theorem formatSize_large_counterexample:
  "formatSize 1152921504606846976 False = ''1152921504606847000''
   \<and> decimal_value (formatSize 1152921504606846976 False) = Some 1152921504606847000
   \<and> decimal_value (formatSize 1152921504606846976 False) \<noteq> Some 1152921504606846976
   \<and> formatSize 9223372036854775808 False = ''9223372036854776000''
   \<and> decimal_value (formatSize 9223372036854775808 False) \<noteq> Some 9223372036854775808"
proof -
  have a: "formatSize 1152921504606846976 False = ''1152921504606847000''"
    by (simp add: formatSize_def toString_2_60)
  have b: "formatSize 9223372036854775808 False = ''9223372036854776000''"
    by (simp add: formatSize_def toString_2_63)
  have ra: "decimal_value ''1152921504606847000'' = Some 1152921504606847000"
    using decimal_value_decimal [of 1152921504606847000]
    by (simp only: decimal_1152921504606847000)
  have rb: "decimal_value ''9223372036854776000'' = Some 9223372036854776000"
    using decimal_value_decimal [of 9223372036854776000]
    by (simp only: decimal_9223372036854776000)
  show ?thesis by (simp only: a b ra rb) simp
qed

section \<open>Sorting by size\<close>

lemma mset_sort_insert: "mset (sort_insert cmp a bs) = add_mset a (mset bs)"
  by (induction bs) simp_all

lemma mset_array_sort: "mset (array_sort cmp xs) = mset xs"
  by (induction xs) (simp_all add: array_sort_def mset_sort_insert)

lemma set_sort_insert: "set (sort_insert cmp a bs) = insert a (set bs)"
  using mset_sort_insert [of cmp a bs, THEN arg_cong, of set_mset] by simp

lemma sort_insert_descending:
  fixes f :: "'a \<Rightarrow> nat"
  assumes "sorted_wrt (\<lambda>x y. f y \<le> f x) bs"
  shows "sorted_wrt (\<lambda>x y. f y \<le> f x) (sort_insert (\<lambda>a b. int (f b) - int (f a)) a bs)"
  using assms
proof (induction bs)
  case Nil
  then show ?case by simp
next
  case (Cons b bs)
  then show ?case by (auto simp: set_sort_insert)
qed

lemma array_sort_descending:
  fixes f :: "'a \<Rightarrow> nat"
  shows "sorted_wrt (\<lambda>x y. f y \<le> f x) (array_sort (\<lambda>a b. int (f b) - int (f a)) xs)"
  by (induction xs) (simp_all add: array_sort_def sort_insert_descending)

lemma mset_sortItems: "mset (sortItems E items opts) = mset items"
  by (simp add: sortItems_def Let_def mset_array_sort)

text \<open>
  Claim C5. With the size key, \<open>sortItems\<close> yields the items in an order whose sizes never
  increase when \<open>reverse\<close> is off, and never decrease when \<open>reverse\<close> is on; the result is
  a rearrangement of the items given.
\<close>

theorem sortItems_by_size:
  assumes "size_opt opts"
  shows "(\<not> reverse opts \<longrightarrow>
            sorted_wrt (\<ge>) (map (\<lambda>it. size_st (stats it)) (sortItems E items opts)))
       \<and> (reverse opts \<longrightarrow>
            sorted_wrt (\<le>) (map (\<lambda>it. size_st (stats it)) (sortItems E items opts)))
       \<and> mset (sortItems E items opts) = mset items"
proof -
  let ?sorted = "array_sort (\<lambda>a b. int (size_st (stats b)) - int (size_st (stats a))) items"
  have desc: "sorted_wrt (\<lambda>x y. size_st (stats y) \<le> size_st (stats x)) ?sorted"
    by (rule array_sort_descending [of "\<lambda>it. size_st (stats it)"])
  have asc: "sorted_wrt (\<lambda>x y. size_st (stats x) \<le> size_st (stats y)) (rev ?sorted)"
    using desc by (simp add: sorted_wrt_rev)
  have fwd: "\<not> reverse opts \<Longrightarrow> sortItems E items opts = ?sorted"
    and bwd: "reverse opts \<Longrightarrow> sortItems E items opts = rev ?sorted"
    using assms by (simp_all add: sortItems_def)
  show ?thesis
    using desc asc fwd bwd by (auto simp: sorted_wrt_map mset_sortItems)
qed

theorem sortItems_by_size_witness:
  "sorted_wrt (\<ge>) (map (\<lambda>it. size_st (stats it))
     (sortItems demo_env
        [\<lparr>name = ''a.txt'', stats = regular_file 33188 500, fullPath = ''/tmp/a.txt''\<rparr>,
         \<lparr>name = ''b.txt'', stats = regular_file 33188 2000000, fullPath = ''/tmp/b.txt''\<rparr>]
        (demo_opts\<lparr>size_opt := True\<rparr>)))
   \<and> sorted_wrt (\<le>) (map (\<lambda>it. size_st (stats it))
     (sortItems demo_env
        [\<lparr>name = ''a.txt'', stats = regular_file 33188 500, fullPath = ''/tmp/a.txt''\<rparr>,
         \<lparr>name = ''b.txt'', stats = regular_file 33188 2000000, fullPath = ''/tmp/b.txt''\<rparr>]
        (demo_opts\<lparr>size_opt := True, reverse := True\<rparr>)))"
proof -
  have s1: "size_opt (demo_opts\<lparr>size_opt := True\<rparr>)"
    and r1: "\<not> reverse (demo_opts\<lparr>size_opt := True\<rparr>)"
    by (simp_all add: demo_opts_def)
  have s2: "size_opt (demo_opts\<lparr>size_opt := True, reverse := True\<rparr>)"
    and r2: "reverse (demo_opts\<lparr>size_opt := True, reverse := True\<rparr>)"
    by (simp_all add: demo_opts_def)
  from sortItems_by_size [OF s1] r1 sortItems_by_size [OF s2] r2
  show ?thesis by blast
qed

section \<open>Classification\<close>

text \<open>
  Claim C8. An entry whose directory flag is set gets the indicator \<open>/\<close> and the directory
  colour, blue (\<open>ESC[34m\<close>), whatever its other flags and execute bits, and never the
  indicator \<open>*\<close> or the green (\<open>ESC[32m\<close>) of an executable; the checks go in the order
  directory, symlink, socket, fifo, executable, and the first that holds decides.
\<close>

theorem directory_wins:
  "(isDirectory st \<longrightarrow>
       getFileTypeIndicator st = ''/'' \<and> getFileColor st = CHR 0x1B # ''[34m''
       \<and> getFileTypeIndicator st \<noteq> ''*'' \<and> getFileColor st \<noteq> CHR 0x1B # ''[32m'')
   \<and> (\<not> isDirectory st \<and> isSymbolicLink st \<longrightarrow>
         getFileTypeIndicator st = ''@'' \<and> getFileColor st = CHR 0x1B # ''[36m'')
   \<and> (\<not> isDirectory st \<and> \<not> isSymbolicLink st \<and> isSocket st \<longrightarrow>
         getFileTypeIndicator st = ''='' \<and> getFileColor st = CHR 0x1B # ''[35m'')
   \<and> (\<not> isDirectory st \<and> \<not> isSymbolicLink st \<and> \<not> isSocket st \<and> isFIFO st \<longrightarrow>
         getFileTypeIndicator st = ''|'' \<and> getFileColor st = CHR 0x1B # ''[33m'')
   \<and> (\<not> isDirectory st \<and> \<not> isSymbolicLink st \<and> \<not> isSocket st \<and> \<not> isFIFO st
        \<and> mode st AND 73 \<noteq> 0 \<longrightarrow>
         getFileTypeIndicator st = ''*'' \<and> getFileColor st = CHR 0x1B # ''[32m'')"
  by (simp add: getFileTypeIndicator_def getFileColor_def ESC_def colors_directory_def
      colors_symlink_def colors_socket_def colors_fifo_def colors_executable_def)

theorem directory_wins_witness:
  "getFileTypeIndicator
     \<lparr>mode = 16877, size_st = 4096, mtime = 0, isDirectory = True, isSymbolicLink = True,
      isSocket = True, isFIFO = True\<rparr> = ''/''
   \<and> getFileColor
     \<lparr>mode = 16877, size_st = 4096, mtime = 0, isDirectory = True, isSymbolicLink = True,
      isSocket = True, isFIFO = True\<rparr> = CHR 0x1B # ''[34m''
   \<and> getFileColor
     \<lparr>mode = 41471, size_st = 4, mtime = 0, isDirectory = False, isSymbolicLink = True,
      isSocket = True, isFIFO = True\<rparr> = CHR 0x1B # ''[36m''
   \<and> getFileColor
     \<lparr>mode = 49645, size_st = 0, mtime = 0, isDirectory = False, isSymbolicLink = False,
      isSocket = True, isFIFO = True\<rparr> = CHR 0x1B # ''[35m''
   \<and> getFileColor
     \<lparr>mode = 4589, size_st = 0, mtime = 0, isDirectory = False, isSymbolicLink = False,
      isSocket = False, isFIFO = True\<rparr> = CHR 0x1B # ''[33m''
   \<and> getFileTypeIndicator (regular_file 33261 10) = ''*''
   \<and> getFileColor (regular_file 33261 10) = CHR 0x1B # ''[32m''"
proof -
  have x: "mode (regular_file 33261 10) AND 73 \<noteq> 0"
    by (simp add: regular_file_def)
  have f: "\<not> isDirectory (regular_file 33261 10)" "\<not> isSymbolicLink (regular_file 33261 10)"
    "\<not> isSocket (regular_file 33261 10)" "\<not> isFIFO (regular_file 33261 10)"
    by (simp_all add: regular_file_def)
  from x f directory_wins [of "regular_file 33261 10"]
  have e: "getFileTypeIndicator (regular_file 33261 10) = ''*''
      \<and> getFileColor (regular_file 33261 10) = CHR 0x1B # ''[32m''"
    by blast
  from e
    directory_wins [of "\<lparr>mode = 16877, size_st = 4096, mtime = 0, isDirectory = True,
      isSymbolicLink = True, isSocket = True, isFIFO = True\<rparr>"]
    directory_wins [of "\<lparr>mode = 41471, size_st = 4, mtime = 0, isDirectory = False,
      isSymbolicLink = True, isSocket = True, isFIFO = True\<rparr>"]
    directory_wins [of "\<lparr>mode = 49645, size_st = 0, mtime = 0, isDirectory = False,
      isSymbolicLink = False, isSocket = True, isFIFO = True\<rparr>"]
    directory_wins [of "\<lparr>mode = 4589, size_st = 0, mtime = 0, isDirectory = False,
      isSymbolicLink = False, isSocket = False, isFIFO = True\<rparr>"]
  show ?thesis by simp
qed

lemma demo_collect:
  "collect demo_env demo_opts ''/tmp'' [''a.txt'', ''.hidden'', ''gone'', ''run.exe''] ([], []) =
     ([\<lparr>name = ''a.txt'', stats = regular_file 33188 500, fullPath = ''/tmp/a.txt''\<rparr>,
       \<lparr>name = ''run.exe'', stats = regular_file 33188 2000000, fullPath = ''/tmp/run.exe''\<rparr>],
      [access_message ''gone'' ''ENOENT: no such file or directory''])"
  by (simp add: demo_env_def demo_opts_def startsWith_def)

lemma demo_sort:
  "sortItems demo_env
     [\<lparr>name = ''a.txt'', stats = regular_file 33188 500, fullPath = ''/tmp/a.txt''\<rparr>,
      \<lparr>name = ''run.exe'', stats = regular_file 33188 2000000, fullPath = ''/tmp/run.exe''\<rparr>]
     demo_opts =
     [\<lparr>name = ''a.txt'', stats = regular_file 33188 500, fullPath = ''/tmp/a.txt''\<rparr>,
      \<lparr>name = ''run.exe'', stats = regular_file 33188 2000000, fullPath = ''/tmp/run.exe''\<rparr>]"
  by (simp add: sortItems_def array_sort_def demo_env_def demo_opts_def)

lemma demo_short:
  "shortName demo_opts True \<lparr>name = n, stats = regular_file 33188 sz, fullPath = p\<rparr>
     = colors_regular @ n @ colors_reset"
  by (simp add: shortName_def demo_opts_def getFileTypeIndicator_def getFileColor_def
      regular_file_def)

text \<open>
  Claim C1, at the file \<open>run.exe\<close> of the concrete directory: a regular file of mode
  \<open>0o100644\<close>, no execute bit set, whose name ends in \<open>.exe\<close>. The classification reads the
  \<open>stats\<close> alone and never the name: the indicator is empty and the colour is the regular one,
  and so the file appears in the listing with indicators and colour on.
\<close>

theorem run_exe_not_executable:
  "stat demo_env (join demo_env ''/tmp'' ''run.exe'') = Inr (regular_file 33188 2000000)
   \<and> mode (regular_file 33188 2000000) AND 73 = 0
   \<and> getFileTypeIndicator (regular_file 33188 2000000) = []
   \<and> getFileColor (regular_file 33188 2000000) = colors_regular
   \<and> getFileColor (regular_file 33188 2000000) \<noteq> colors_executable
   \<and> shortName demo_opts True
        \<lparr>name = ''run.exe'', stats = regular_file 33188 2000000, fullPath = ''/tmp/run.exe''\<rparr>
       = colors_regular @ ''run.exe'' @ colors_reset
   \<and> stdout (listDirectory demo_env ''/tmp'' demo_opts)
       = [colors_regular @ ''a.txt'' @ colors_reset @ ''  '' @
          colors_regular @ ''run.exe'' @ colors_reset]"
proof -
  have a: "stat demo_env (join demo_env ''/tmp'' ''run.exe'') = Inr (regular_file 33188 2000000)"
    by (simp add: demo_env_def)
  have b: "mode (regular_file 33188 2000000) AND 73 = 0"
    by (simp add: regular_file_def)
  have c: "getFileTypeIndicator (regular_file 33188 2000000) = []"
    by (simp add: getFileTypeIndicator_def regular_file_def)
  have d: "getFileColor (regular_file 33188 2000000) = colors_regular"
    by (simp add: getFileColor_def regular_file_def)
  have e: "colors_regular \<noteq> colors_executable"
    by (simp add: colors_regular_def colors_executable_def)
  have f: "shortName demo_opts True
        \<lparr>name = ''run.exe'', stats = regular_file 33188 2000000, fullPath = ''/tmp/run.exe''\<rparr>
       = colors_regular @ ''run.exe'' @ colors_reset"
    by (simp add: shortName_def demo_opts_def c d)
  have g: "stdout (listDirectory demo_env ''/tmp'' demo_opts)
       = [colors_regular @ ''a.txt'' @ colors_reset @ ''  '' @
          colors_regular @ ''run.exe'' @ colors_reset]"
  proof -
    have rd: "readdir demo_env ''/tmp'' = Inr [''a.txt'', ''.hidden'', ''gone'', ''run.exe'']"
      by (simp add: demo_env_def)
    have col: "shouldUseColor demo_env (color demo_opts) = True"
      by (simp add: shouldUseColor_def demo_opts_def)
    have lg: "\<not> long demo_opts" by (simp add: demo_opts_def)
    show ?thesis
      unfolding listDirectory_def rd
      by (simp add: demo_collect demo_sort demo_short col lg del: collect.simps)
  qed
  from a b c d e f g show ?thesis by simp
qed

section \<open>Colour\<close>

text \<open>
  Claim C10. For a colour option other than \<open>always\<close> and \<open>never\<close>, \<open>shouldUseColor\<close>
  answers whether the output is a terminal, as it does for \<open>auto\<close>: it has no failing
  path, and the answer is neither always on nor always off.
\<close>

theorem shouldUseColor_unrecognized:
  assumes "colorOption \<noteq> ''always''" and "colorOption \<noteq> ''never''"
  shows "shouldUseColor E colorOption = isTTY E
       \<and> shouldUseColor E colorOption = shouldUseColor E ''auto''"
  using assms by (simp add: shouldUseColor_def)

theorem shouldUseColor_unrecognized_witness:
  "''bogus'' \<noteq> ''always'' \<and> ''bogus'' \<noteq> ''never''
   \<and> shouldUseColor demo_env ''bogus'' = isTTY demo_env
   \<and> shouldUseColor (demo_env\<lparr>isTTY := True\<rparr>) ''bogus'' = isTTY (demo_env\<lparr>isTTY := True\<rparr>)"
proof -
  have h1: "''bogus'' \<noteq> ''always''" and h2: "''bogus'' \<noteq> ''never''" by simp_all
  from h1 h2 shouldUseColor_unrecognized [OF h1 h2, of demo_env]
    shouldUseColor_unrecognized [OF h1 h2, of "demo_env\<lparr>isTTY := True\<rparr>"]
  show ?thesis by blast
qed

section \<open>Collecting the members\<close>

lemma collect_append:
  "collect E opts d es (items, errs) =
     (items @ fst (collect E opts d es ([], [])), errs @ snd (collect E opts d es ([], [])))"
proof (induction es arbitrary: items errs)
  case Nil
  show ?case by simp
next
  case (Cons e es)
  note IH = Cons.IH
  show ?case
  proof (cases "\<not> all opts \<and> startsWith e ''.''")
    case True
    then show ?thesis using IH [of items errs] by simp
  next
    case False
    show ?thesis
    proof (cases "stat E (join E d e)")
      case (Inl msg)
      with False show ?thesis
        using IH [of items "errs @ [access_message e msg]"] IH [of "[]" "[access_message e msg]"]
        by auto
    next
      case (Inr st)
      with False show ?thesis
        using IH [of "items @ [\<lparr>name = e, stats = st, fullPath = join E d e\<rparr>]" errs]
          IH [of "[\<lparr>name = e, stats = st, fullPath = join E d e\<rparr>]" "[]"]
        by auto
    qed
  qed
qed

lemma collect_Cons:
  "collect E opts d (e # es) ([], []) =
     (if \<not> all opts \<and> startsWith e ''.'' then collect E opts d es ([], [])
      else case stat E (join E d e) of
        Inl msg \<Rightarrow> (fst (collect E opts d es ([], [])),
                      access_message e msg # snd (collect E opts d es ([], [])))
      | Inr st \<Rightarrow> (\<lparr>name = e, stats = st, fullPath = join E d e\<rparr>
                       # fst (collect E opts d es ([], [])),
                     snd (collect E opts d es ([], []))))"
proof (cases "stat E (join E d e)")
  case (Inl msg)
  then show ?thesis
    using collect_append [of E opts d es "[]" "[access_message e msg]"] by auto
next
  case (Inr st)
  then show ?thesis
    using collect_append [of E opts d es "[\<lparr>name = e, stats = st, fullPath = join E d e\<rparr>]" "[]"]
    by auto
qed



lemma collect_items_intro:
  assumes "e \<in> set es" and "all opts \<or> \<not> startsWith e ''.''"
    and "stat E (join E d e) = Inr st"
  shows "\<lparr>name = e, stats = st, fullPath = join E d e\<rparr> \<in> set (fst (collect E opts d es ([], [])))"
  using assms(1)
proof (induction es)
  case Nil
  then show ?case by simp
next
  case (Cons x xs)
  show ?case
  proof (cases "x = e")
    case True
    with assms(2,3) show ?thesis by (auto simp: collect_Cons simp del: collect.simps)
  next
    case False
    with Cons have "\<lparr>name = e, stats = st, fullPath = join E d e\<rparr>
        \<in> set (fst (collect E opts d xs ([], [])))" by simp
    then show ?thesis by (simp add: collect_Cons del: collect.simps split: sum.splits)
  qed
qed

lemma collect_items_elim:
  assumes "it \<in> set (fst (collect E opts d es ([], [])))"
  shows "name it \<in> set es \<and> (all opts \<or> \<not> startsWith (name it) ''.'')
       \<and> stat E (join E d (name it)) = Inr (stats it) \<and> fullPath it = join E d (name it)"
  using assms
proof (induction es)
  case Nil
  then show ?case by simp
next
  case (Cons x xs)
  show ?case
  proof (cases "\<not> all opts \<and> startsWith x ''.''")
    case True
    with Cons.prems have "it \<in> set (fst (collect E opts d xs ([], [])))"
      by (simp add: collect_Cons del: collect.simps)
    with Cons.IH show ?thesis by simp
  next
    case False
    show ?thesis
    proof (cases "stat E (join E d x)")
      case (Inl msg)
      with False Cons.prems have "it \<in> set (fst (collect E opts d xs ([], [])))"
        by (auto simp: collect_Cons simp del: collect.simps)
      with Cons.IH show ?thesis by simp
    next
      case (Inr st)
      with False Cons.prems have
        "it = \<lparr>name = x, stats = st, fullPath = join E d x\<rparr>
         \<or> it \<in> set (fst (collect E opts d xs ([], [])))"
        by (auto simp: collect_Cons simp del: collect.simps)
      then show ?thesis
      proof
        assume "it = \<lparr>name = x, stats = st, fullPath = join E d x\<rparr>"
        with False Inr show ?thesis by simp
      next
        assume "it \<in> set (fst (collect E opts d xs ([], [])))"
        with Cons.IH show ?thesis by simp
      qed
    qed
  qed
qed

lemma collect_errs_intro:
  assumes "e \<in> set es" and "all opts \<or> \<not> startsWith e ''.''"
    and "stat E (join E d e) = Inl msg"
  shows "access_message e msg \<in> set (snd (collect E opts d es ([], [])))"
  using assms(1)
proof (induction es)
  case Nil
  then show ?case by simp
next
  case (Cons x xs)
  show ?case
  proof (cases "x = e")
    case True
    with assms(2,3) show ?thesis by (auto simp: collect_Cons simp del: collect.simps)
  next
    case False
    with Cons have "access_message e msg \<in> set (snd (collect E opts d xs ([], [])))" by simp
    then show ?thesis by (simp add: collect_Cons del: collect.simps split: sum.splits)
  qed
qed

lemma listDirectory_ok:
  assumes "readdir E d = Inr es"
  shows "stderr (listDirectory E d opts) = snd (collect E opts d es ([], []))"
    and "exitCode (listDirectory E d opts) = 0"
  using assms by (simp_all add: listDirectory_def Let_def split: prod.splits)

lemma listDirectory_stdout:
  assumes "readdir E d = Inr es"
  shows "stdout (listDirectory E d opts) =
           (if long opts
              then map (longLine E opts (shouldUseColor E (color opts)))
                     (sortItems E (collected E opts d es) opts)
            else [join_with ''  '' (map (shortName opts (shouldUseColor E (color opts)))
                     (sortItems E (collected E opts d es) opts))])"
  using assms by (simp add: listDirectory_def collected_def Let_def split: prod.splits)

lemma collected_intro:
  assumes "e \<in> set es" and "all opts \<or> \<not> startsWith e ''.''"
    and "stat E (join E d e) = Inr st"
  shows "\<lparr>name = e, stats = st, fullPath = join E d e\<rparr> \<in> set (collected E opts d es)"
  unfolding collected_def using assms by (rule collect_items_intro)

lemma collected_absent:
  assumes "\<not> (all opts \<or> \<not> startsWith e ''.'') \<or> (\<exists>msg. stat E (join E d e) = Inl msg)"
  shows "e \<notin> name ` set (collected E opts d es)"
proof
  assume "e \<in> name ` set (collected E opts d es)"
  then obtain it where mem: "it \<in> set (fst (collect E opts d es ([], [])))" and nm: "name it = e"
    unfolding collected_def by auto
  from collect_items_elim [OF mem] nm
  have "all opts \<or> \<not> startsWith e ''.''" and "stat E (join E d e) = Inr (stats it)"
    by simp_all
  with assms show False by auto
qed

text \<open>
  Claim C3. A member whose metadata query is made and fails (the query is made for the
  members that the hidden filter lets through) leaves the line \<open>ls: cannot access\<close>, its
  name in single quotes, a colon and the message of the failure on the error stream, and
  is not among the collected items; every other member that is
  queried with success is collected, the listing is rendered from the collected items, and
  the exit code of the run is 0.
\<close>

theorem stat_failure_skips_entry:
  assumes "readdir E directory = Inr entries"
    and "entry \<in> set entries"
    and "all opts \<or> \<not> startsWith entry ''.''"
    and "stat E (join E directory entry) = Inl msg"
  shows "''ls: cannot access '' @ [CHR 0x27] @ entry @ [CHR 0x27] @ '': '' @ msg
           \<in> set (stderr (listDirectory E directory opts))
       \<and> entry \<notin> name ` set (collected E opts directory entries)
       \<and> (\<forall>other st. other \<in> set entries \<and> (all opts \<or> \<not> startsWith other ''.'')
             \<and> stat E (join E directory other) = Inr st \<longrightarrow>
             \<lparr>name = other, stats = st, fullPath = join E directory other\<rparr>
               \<in> set (collected E opts directory entries))
       \<and> stdout (listDirectory E directory opts) =
           (if long opts
              then map (longLine E opts (shouldUseColor E (color opts)))
                     (sortItems E (collected E opts directory entries) opts)
            else [join_with ''  '' (map (shortName opts (shouldUseColor E (color opts)))
                     (sortItems E (collected E opts directory entries) opts))])
       \<and> exitCode (listDirectory E directory opts) = 0"
proof -
  have "access_message entry msg \<in> set (stderr (listDirectory E directory opts))"
    unfolding listDirectory_ok(1) [OF assms(1)]
    using assms(2,3,4) by (rule collect_errs_intro)
  then have warned: "''ls: cannot access '' @ [CHR 0x27] @ entry @ [CHR 0x27] @ '': '' @ msg
      \<in> set (stderr (listDirectory E directory opts))"
    by (simp only: access_message_def)
  have absent: "entry \<notin> name ` set (collected E opts directory entries)"
    using assms(4) by (intro collected_absent) blast
  have others: "\<forall>other st. other \<in> set entries \<and> (all opts \<or> \<not> startsWith other ''.'')
             \<and> stat E (join E directory other) = Inr st \<longrightarrow>
             \<lparr>name = other, stats = st, fullPath = join E directory other\<rparr>
               \<in> set (collected E opts directory entries)"
    by (blast intro: collected_intro)
  have code: "exitCode (listDirectory E directory opts) = 0"
    using assms(1) by (rule listDirectory_ok(2))
  note out = listDirectory_stdout [OF assms(1), of opts]
  from warned absent others out code show ?thesis by blast
qed

theorem stat_failure_skips_entry_witness:
  "''ls: cannot access '' @ [CHR 0x27] @ ''gone'' @ [CHR 0x27] @ '': ''
       @ ''ENOENT: no such file or directory''
     \<in> set (stderr (listDirectory demo_env ''/tmp'' demo_opts))
   \<and> ''gone'' \<notin> name ` set (collected demo_env demo_opts ''/tmp''
                               [''a.txt'', ''.hidden'', ''gone'', ''run.exe''])
   \<and> \<lparr>name = ''run.exe'', stats = regular_file 33188 2000000,
       fullPath = join demo_env ''/tmp'' ''run.exe''\<rparr>
       \<in> set (collected demo_env demo_opts ''/tmp'' [''a.txt'', ''.hidden'', ''gone'', ''run.exe''])
   \<and> exitCode (listDirectory demo_env ''/tmp'' demo_opts) = 0"
proof -
  have h1: "readdir demo_env ''/tmp'' = Inr [''a.txt'', ''.hidden'', ''gone'', ''run.exe'']"
    by (simp add: demo_env_def)
  have h2: "''gone'' \<in> set [''a.txt'', ''.hidden'', ''gone'', ''run.exe'']"
    by simp
  have h3: "all demo_opts \<or> \<not> startsWith ''gone'' ''.''"
    by (simp add: startsWith_def)
  have h4: "stat demo_env (join demo_env ''/tmp'' ''gone'')
      = Inl ''ENOENT: no such file or directory''"
    by (simp add: demo_env_def)
  have k2: "''run.exe'' \<in> set [''a.txt'', ''.hidden'', ''gone'', ''run.exe'']"
    by simp
  have k3: "all demo_opts \<or> \<not> startsWith ''run.exe'' ''.''"
    by (simp add: startsWith_def)
  have k4: "stat demo_env (join demo_env ''/tmp'' ''run.exe'') = Inr (regular_file 33188 2000000)"
    by (simp add: demo_env_def)
  from stat_failure_skips_entry [OF h1 h2 h3 h4] k2 k3 k4
  show ?thesis by blast
qed

text \<open>
  Claim C6. A name that starts with \<open>.\<close> is not among the collected items when \<open>all\<close> is
  off; when \<open>all\<close> is on, such a member is collected if its metadata query succeeds; a
  member whose name does not start with \<open>.\<close> is collected whenever its query succeeds.
\<close>

theorem hidden_entries_filter:
  "(startsWith entry ''.'' \<and> \<not> all opts \<longrightarrow>
       entry \<notin> name ` set (collected E opts directory entries))
   \<and> (entry \<in> set entries \<and> startsWith entry ''.'' \<and> all opts
        \<and> stat E (join E directory entry) = Inr st \<longrightarrow>
       \<lparr>name = entry, stats = st, fullPath = join E directory entry\<rparr>
         \<in> set (collected E opts directory entries))
   \<and> (entry \<in> set entries \<and> \<not> startsWith entry ''.''
        \<and> stat E (join E directory entry) = Inr st \<longrightarrow>
       \<lparr>name = entry, stats = st, fullPath = join E directory entry\<rparr>
         \<in> set (collected E opts directory entries))"
proof -
  have a: "startsWith entry ''.'' \<and> \<not> all opts \<longrightarrow>
       entry \<notin> name ` set (collected E opts directory entries)"
  proof
    assume "startsWith entry ''.'' \<and> \<not> all opts"
    then have "\<not> (all opts \<or> \<not> startsWith entry ''.'')
        \<or> (\<exists>msg. stat E (join E directory entry) = Inl msg)"
      by simp
    then show "entry \<notin> name ` set (collected E opts directory entries)"
      by (rule collected_absent)
  qed
  have b: "entry \<in> set entries \<and> startsWith entry ''.'' \<and> all opts
        \<and> stat E (join E directory entry) = Inr st \<longrightarrow>
       \<lparr>name = entry, stats = st, fullPath = join E directory entry\<rparr>
         \<in> set (collected E opts directory entries)"
    by (blast intro: collected_intro)
  have c: "entry \<in> set entries \<and> \<not> startsWith entry ''.''
        \<and> stat E (join E directory entry) = Inr st \<longrightarrow>
       \<lparr>name = entry, stats = st, fullPath = join E directory entry\<rparr>
         \<in> set (collected E opts directory entries)"
    by (blast intro: collected_intro)
  from a b c show ?thesis by blast
qed

theorem hidden_entries_filter_witness:
  "''.hidden'' \<notin> name ` set (collected demo_env demo_opts ''/tmp''
                               [''a.txt'', ''.hidden'', ''gone'', ''run.exe''])
   \<and> \<lparr>name = ''.hidden'', stats = regular_file 33188 10,
       fullPath = join demo_env ''/tmp'' ''.hidden''\<rparr>
       \<in> set (collected demo_env (demo_opts\<lparr>all := True\<rparr>) ''/tmp''
                [''a.txt'', ''.hidden'', ''gone'', ''run.exe''])
   \<and> \<lparr>name = ''a.txt'', stats = regular_file 33188 500,
       fullPath = join demo_env ''/tmp'' ''a.txt''\<rparr>
       \<in> set (collected demo_env demo_opts ''/tmp'' [''a.txt'', ''.hidden'', ''gone'', ''run.exe''])"
proof -
  have dot: "startsWith ''.hidden'' ''.''" and nodot: "\<not> startsWith ''a.txt'' ''.''"
    by (simp_all add: startsWith_def)
  have off: "\<not> all demo_opts" and on: "all (demo_opts\<lparr>all := True\<rparr>)"
    by (simp_all add: demo_opts_def)
  have m1: "''.hidden'' \<in> set [''a.txt'', ''.hidden'', ''gone'', ''run.exe'']"
    and m2: "''a.txt'' \<in> set [''a.txt'', ''.hidden'', ''gone'', ''run.exe'']"
    by simp_all
  have s1: "stat demo_env (join demo_env ''/tmp'' ''.hidden'') = Inr (regular_file 33188 10)"
    and s2: "stat demo_env (join demo_env ''/tmp'' ''a.txt'') = Inr (regular_file 33188 500)"
    by (simp_all add: demo_env_def)
  from dot off
    hidden_entries_filter [of "''.hidden''" demo_opts demo_env "''/tmp''"
      "[''a.txt'', ''.hidden'', ''gone'', ''run.exe'']"]
  have w1: "''.hidden'' \<notin> name ` set (collected demo_env demo_opts ''/tmp''
                               [''a.txt'', ''.hidden'', ''gone'', ''run.exe''])"
    by blast
  from dot on m1 s1
    hidden_entries_filter [of "''.hidden''" "demo_opts\<lparr>all := True\<rparr>" demo_env "''/tmp''"
      "[''a.txt'', ''.hidden'', ''gone'', ''run.exe'']" "regular_file 33188 10"]
  have w2: "\<lparr>name = ''.hidden'', stats = regular_file 33188 10,
       fullPath = join demo_env ''/tmp'' ''.hidden''\<rparr>
       \<in> set (collected demo_env (demo_opts\<lparr>all := True\<rparr>) ''/tmp''
                [''a.txt'', ''.hidden'', ''gone'', ''run.exe''])"
    by blast
  from nodot m2 s2
    hidden_entries_filter [of "''a.txt''" demo_opts demo_env "''/tmp''"
      "[''a.txt'', ''.hidden'', ''gone'', ''run.exe'']" "regular_file 33188 500"]
  have w3: "\<lparr>name = ''a.txt'', stats = regular_file 33188 500,
       fullPath = join demo_env ''/tmp'' ''a.txt''\<rparr>
       \<in> set (collected demo_env demo_opts ''/tmp'' [''a.txt'', ''.hidden'', ''gone'', ''run.exe''])"
    by blast
  from w1 w2 w3 show ?thesis by blast
qed

section \<open>The default override\<close>

lemma onlyLongOption_iff: "onlyLongOption argv = (argv = [''-l''])"
proof (cases argv)
  case Nil
  then show ?thesis by (simp add: onlyLongOption_def)
next
  case (Cons a as)
  then show ?thesis by (cases as) (auto simp: onlyLongOption_def)
qed

text \<open>
  Claim C2, as the code has it. When no command-line argument starts with \<open>-\<close>, or the
  arguments are exactly the one argument \<open>-l\<close>, \<open>classify\<close> is set and the colour option
  \<open>auto\<close> becomes \<open>always\<close> (any other colour option stays); when some argument starts
  with \<open>-\<close> and the arguments are not exactly \<open>-l\<close>, the options are left as parsed.
\<close>

theorem default_override:
  "(\<not> userSpecifiedOptions argv \<or> argv = [''-l''] \<longrightarrow>
      overrideDefaults argv opts =
        opts\<lparr>classify := True,
             color := (if color opts = ''auto'' then ''always'' else color opts)\<rparr>)
   \<and> (userSpecifiedOptions argv \<and> argv \<noteq> [''-l''] \<longrightarrow> overrideDefaults argv opts = opts)"
  by (simp add: overrideDefaults_def onlyLongOption_iff Let_def)

text \<open>
  The long spelling of the long-format flag is not recognised by the override: for the
  arguments \<open>--long\<close> alone, \<open>classify\<close> stays off and the colour option stays \<open>auto\<close>.
\<close>

theorem default_override_counterexample:
  "classify (overrideDefaults [''--long''] parsed_long) = False
   \<and> color (overrideDefaults [''--long''] parsed_long) = ''auto''"
  by (simp add: overrideDefaults_def userSpecifiedOptions_def onlyLongOption_def
      startsWith_def parsed_long_def)

theorem default_override_witness:
  "classify (overrideDefaults [] (parsed_long\<lparr>long := False\<rparr>))
   \<and> color (overrideDefaults [] (parsed_long\<lparr>long := False\<rparr>)) = ''always''
   \<and> classify (overrideDefaults [''-l''] parsed_long)
   \<and> color (overrideDefaults [''-l''] parsed_long) = ''always''
   \<and> color (overrideDefaults [''/tmp''] (parsed_long\<lparr>long := False, color := ''never''\<rparr>))
       = ''never''
   \<and> overrideDefaults [''-l'', ''-a''] (parsed_long\<lparr>all := True\<rparr>) = parsed_long\<lparr>all := True\<rparr>"
proof -
  have n0: "\<not> userSpecifiedOptions []" and n1: "\<not> userSpecifiedOptions [''/tmp'']"
    and y: "userSpecifiedOptions [''-l'', ''-a'']"
    by (simp_all add: userSpecifiedOptions_def startsWith_def)
  have ne: "[''-l'', ''-a''] \<noteq> [''-l'']" by simp
  have au: "color parsed_long = ''auto''" by (simp add: parsed_long_def)
  from n0 au default_override [of "[]" "parsed_long\<lparr>long := False\<rparr>"]
  have w0: "overrideDefaults [] (parsed_long\<lparr>long := False\<rparr>)
      = parsed_long\<lparr>long := False, classify := True, color := ''always''\<rparr>"
    by simp
  from au default_override [of "[''-l'']" parsed_long]
  have w1: "overrideDefaults [''-l''] parsed_long = parsed_long\<lparr>classify := True, color := ''always''\<rparr>"
    by simp
  from n1 default_override [of "[''/tmp'']" "parsed_long\<lparr>long := False, color := ''never''\<rparr>"]
  have w2: "overrideDefaults [''/tmp''] (parsed_long\<lparr>long := False, color := ''never''\<rparr>)
      = parsed_long\<lparr>long := False, color := ''never'', classify := True\<rparr>"
    by simp
  from y ne default_override [of "[''-l'', ''-a'']" "parsed_long\<lparr>all := True\<rparr>"]
  have w3: "overrideDefaults [''-l'', ''-a''] (parsed_long\<lparr>all := True\<rparr>) = parsed_long\<lparr>all := True\<rparr>"
    by simp
  from w0 w1 w2 w3 show ?thesis by simp
qed

end
